theory Spec2Isabelle
  imports
    Complex_Main
    "HOL-Library.Sublist"
    "HOL-Library.Char_ord"
    "HOL-Library.List_Lexorder"
    "HOL-Library.Product_Lexorder"
begin

section \<open>Python strings\<close>

text \<open>
  A Python \<open>str\<close> is a sequence of code points. The model uses \<^typ>\<open>string\<close>, one
  \<^typ>\<open>char\<close> per code point, which covers the texts whose code points are below 256;
  \<open>length\<close> is then Python's \<open>len\<close>. On that range \<open>str.lower\<close>, \<open>str.strip\<close> and
  the regular expression class \<open>\w\<close> are the following tables. An absent text
  (Python's \<open>None\<close>) is \<^term>\<open>None :: string option\<close>.
\<close>

definition lower_char :: "char \<Rightarrow> char" where
  "lower_char c =
     (let n = (of_char c :: nat)
      in if (65 \<le> n \<and> n \<le> 90) \<or> (192 \<le> n \<and> n \<le> 222 \<and> n \<noteq> 215)
         then char_of (n + 32) else c)"

definition lower :: "string \<Rightarrow> string" where
  "lower s = map lower_char s"

definition isspace :: "char \<Rightarrow> bool" where
  "isspace c =
     (let n = (of_char c :: nat)
      in (9 \<le> n \<and> n \<le> 13) \<or> (28 \<le> n \<and> n \<le> 32) \<or> n = 133 \<or> n = 160)"

definition strip :: "string \<Rightarrow> string" where
  "strip s = rev (dropWhile isspace (rev (dropWhile isspace s)))"

definition is_word_char :: "char \<Rightarrow> bool" where
  "is_word_char c =
     (let n = (of_char c :: nat)
      in (48 \<le> n \<and> n \<le> 57) \<or> (65 \<le> n \<and> n \<le> 90) \<or> n = 95 \<or> (97 \<le> n \<and> n \<le> 122)
         \<or> n = 170 \<or> n = 178 \<or> n = 179 \<or> n = 181 \<or> n = 185 \<or> n = 186
         \<or> (188 \<le> n \<and> n \<le> 190) \<or> (192 \<le> n \<and> n \<le> 214) \<or> (216 \<le> n \<and> n \<le> 246)
         \<or> (248 \<le> n \<and> n \<le> 255))"

text \<open>\<open>word in text\<close>: the word occurs as a contiguous run of the text.\<close>

fun py_in :: "string \<Rightarrow> string \<Rightarrow> bool" where
  "py_in w [] = (w = [])"
| "py_in w (c # cs) = (prefix w (c # cs) \<or> py_in w cs)"

text \<open>\<open>text.split(sep)\<close> for a one-character separator: the pieces between occurrences.\<close>

fun split :: "char \<Rightarrow> string \<Rightarrow> string list" where
  "split sep [] = [[]]"
| "split sep (c # cs) =
     (if c = sep then [] # split sep cs
      else (case split sep cs of p # ps \<Rightarrow> (c # p) # ps | [] \<Rightarrow> [[c]]))"

text \<open>\<open>sep.join(parts)\<close>.\<close>

fun join :: "string \<Rightarrow> string list \<Rightarrow> string" where
  "join sep [] = []"
| "join sep [p] = p"
| "join sep (p # q # ps) = p @ sep @ join sep (q # ps)"

text \<open>\<open>re.findall(r'\w+', s)\<close>: the maximal runs of word characters, left to right.\<close>

fun findall_word_acc :: "string \<Rightarrow> string \<Rightarrow> string list" where
  "findall_word_acc acc [] = (if acc = [] then [] else [rev acc])"
| "findall_word_acc acc (c # cs) =
     (if is_word_char c then findall_word_acc (c # acc) cs
      else if acc = [] then findall_word_acc [] cs
      else rev acc # findall_word_acc [] cs)"

definition findall_word :: "string \<Rightarrow> string list" where
  "findall_word s = findall_word_acc [] s"

text \<open>\<open>xs[:n]\<close>: a negative bound counts from the end.\<close>

definition py_take :: "int \<Rightarrow> 'a list \<Rightarrow> 'a list" where
  "py_take n xs = (if 0 \<le> n then take (nat n) xs else take (length xs - nat (- n)) xs)"

section \<open>Floats\<close>

text \<open>
  The scores are Python floats built from the literals 0.1, 0.3, 0.5, 0.8 and 1.0 and a
  small integer, and every returned value goes through \<open>round(x, 4)\<close>. The model computes
  in \<^typ>\<open>real\<close>: the exact value is a multiple of one tenth, the float computation is
  off from it by far less than half of 0.0001, so the float \<open>round\<close> returns the
  float written with that decimal. \<open>round\<close> rounds half to even.
\<close>

definition py_round4 :: "real \<Rightarrow> real" where
  "py_round4 x =
     (let y = x * 10000; f = \<lfloor>y\<rfloor>; r = y - of_int f
      in of_int (if r < 1 / 2 then f else if 1 / 2 < r then f + 1
                 else if even f then f else f + 1) / 10000)"

section \<open>SimpleSentimentAnalyzer\<close>

definition positive_words :: "string list" where
  "positive_words =
     [''good'', ''great'', ''excellent'', ''positive'', ''support'', ''agree'', ''approve'',
      ''like'', ''love'', ''amazing'', ''wonderful'', ''fantastic'', ''perfect'',
      ''outstanding'', ''brilliant'', ''commend'', ''endorse'', ''recommend'', ''beneficial'',
      ''effective'', ''successful'', ''impressive'', ''satisfactory'', ''adequate'']"

definition negative_words :: "string list" where
  "negative_words =
     [''bad'', ''terrible'', ''awful'', ''negative'', ''oppose'', ''disagree'', ''disapprove'',
      ''hate'', ''dislike'', ''horrible'', ''disgusting'', ''worst'', ''fail'', ''problem'',
      ''issue'', ''concern'', ''flawed'', ''inadequate'', ''insufficient'', ''problematic'',
      ''disappointing'', ''unsatisfactory'', ''poor'', ''weak'', ''deficient'']"

record sentiment_result =
  label :: string
  confidence :: real
  polarity :: real

text \<open>\<open>sum(1 for word in words if word in text_lower)\<close>.\<close>

definition count_hits :: "string list \<Rightarrow> string \<Rightarrow> int" where
  "count_hits words text_lower = int (length (filter (\<lambda>word. py_in word text_lower) words))"

text \<open>The body of \<open>analyze_sentiment\<close> after the two counts are known.\<close>

definition score_counts :: "int \<Rightarrow> int \<Rightarrow> sentiment_result" where
  "score_counts positive_count negative_count =
     (let (lab, pol) =
            (if positive_count > negative_count
             then (''positive'', min 0.8 (0.3 + of_int (positive_count - negative_count) * 0.1))
             else if negative_count > positive_count
             then (''negative'', max (- 0.8) (- 0.3 - of_int (negative_count - positive_count) * 0.1))
             else (''neutral'', 0.0));
          conf = min 1.0 (0.5 + of_int \<bar>positive_count - negative_count\<bar> * 0.1)
      in \<lparr>label = lab, confidence = py_round4 conf, polarity = py_round4 pol\<rparr>)"

definition analyze_sentiment :: "string option \<Rightarrow> sentiment_result" where
  "analyze_sentiment text =
     (case text of
        None \<Rightarrow> \<lparr>label = ''neutral'', confidence = 0.0, polarity = 0.0\<rparr>
      | Some t \<Rightarrow>
          if t = [] then \<lparr>label = ''neutral'', confidence = 0.0, polarity = 0.0\<rparr>
          else
            let text_lower = lower t;
                positive_count = count_hits positive_words text_lower;
                negative_count = count_hits negative_words text_lower
            in score_counts positive_count negative_count)"

section \<open>SimpleTextSummarizer\<close>

definition stop_words :: "string set" where
  "stop_words =
     {''the'', ''a'', ''an'', ''and'', ''or'', ''but'', ''in'', ''on'', ''at'', ''to'', ''for'',
      ''of'', ''with'', ''by'', ''is'', ''are'', ''was'', ''were'', ''be'', ''been'', ''being'',
      ''this'', ''that'', ''these'', ''those'', ''i'', ''you'', ''he'', ''she'', ''it'', ''we'',
      ''they''}"

definition no_text :: string where
  "no_text = ''No text provided for summarization.''"

text \<open>\<open>[s.strip() for s in text.split('.') if len(s.strip()) > 20]\<close>.\<close>

definition sentences_of :: "string \<Rightarrow> string list" where
  "sentences_of text = map strip (filter (\<lambda>s. length (strip s) > 20) (split CHR ''.'' text))"

text \<open>
  The \<open>Counter\<close> is a function from words to counts, 0 for a word never counted. The
  inner loop counts the words of one sentence, the outer loop runs over the sentences.
\<close>

definition count_words :: "string list \<Rightarrow> (string \<Rightarrow> nat) \<Rightarrow> (string \<Rightarrow> nat)" where
  "count_words words freq =
     fold (\<lambda>word f. if word \<notin> stop_words \<and> length word > 3 then f(word := f word + 1) else f)
       words freq"

definition word_freq :: "string list \<Rightarrow> (string \<Rightarrow> nat)" where
  "word_freq sentences =
     fold (\<lambda>sentence f. count_words (findall_word (lower sentence)) f) sentences (\<lambda>_. 0)"

text \<open>
  The triples \<open>(score, i, sentence)\<close>. Scores and positions are Python ints that are
  never negative, hence \<^typ>\<open>nat\<close>.
\<close>

type_synonym scored = "nat \<times> nat \<times> string"

definition score_of :: "scored \<Rightarrow> nat" where
  "score_of x = fst x"

definition index_of :: "scored \<Rightarrow> nat" where
  "index_of x = fst (snd x)"

definition sentence_of :: "scored \<Rightarrow> string" where
  "sentence_of x = snd (snd x)"

definition sentence_scores :: "string list \<Rightarrow> scored list" where
  "sentence_scores sentences =
     (let wf = word_freq sentences
      in map (\<lambda>(i, sentence).
                (sum_list (map wf (filter (\<lambda>word. word \<notin> stop_words)
                                     (findall_word (lower sentence)))),
                 i, sentence))
           (enumerate 0 sentences))"

text \<open>
  \<open>sentence_scores.sort(reverse=True)\<close>: the triples in descending order, compared as
  Python compares tuples (first components first; strings by code point). Two triples
  that compare equal are the same value, so the order Python keeps among equal elements
  does not show.
\<close>

definition sort_reverse :: "scored list \<Rightarrow> scored list" where
  "sort_reverse xs = rev (sort xs)"

text \<open>\<open>sorted(sentence_scores[:max_sentences], key=lambda x: x[1])\<close>.\<close>

definition top_sentences :: "int \<Rightarrow> scored list \<Rightarrow> scored list" where
  "top_sentences max_sentences ranked = sort_key index_of (py_take max_sentences ranked)"

definition generate_summary :: "string option \<Rightarrow> int \<Rightarrow> string" where
  "generate_summary text max_sentences =
     (case text of
        None \<Rightarrow> no_text
      | Some t \<Rightarrow>
          if t = [] then no_text
          else
            let sentences = sentences_of t
            in if int (length sentences) \<le> max_sentences then t
               else
                 let ranked = sort_reverse (sentence_scores sentences);
                     top = top_sentences max_sentences ranked
                 in join ''. '' (map sentence_of top) @ ''.'')"

section \<open>Orders on scored sentences\<close>

text \<open>
  Two ways to rank the triples. \<open>ranks_before\<close> is what a descending sort of the whole
  triple amounts to when the positions differ: higher score first, and among equal
  scores the higher position first.
\<close>

definition ranks_before :: "scored \<Rightarrow> scored \<Rightarrow> bool" where
  "ranks_before a b =
     (score_of a > score_of b \<or> (score_of a = score_of b \<and> index_of a > index_of b))"

text \<open>
  \<open>spec_ranks_before\<close> is the order in the words of the specification: score descending,
  ties broken by original index ascending.
\<close>

definition spec_ranks_before :: "scored \<Rightarrow> scored \<Rightarrow> bool" where
  "spec_ranks_before a b =
     (score_of a > score_of b \<or> (score_of a = score_of b \<and> index_of a < index_of b))"

section \<open>Properties of the string helpers\<close>

text \<open>\<open>py_in\<close> is the contiguous-sublist relation of the library, hence transitive.\<close>

lemma py_in_iff_sublist: "py_in w t \<longleftrightarrow> sublist w t"
  by (induction t) (simp_all add: sublist_Cons_right)

lemma py_in_trans: "py_in a b \<Longrightarrow> py_in b c \<Longrightarrow> py_in a c"
  unfolding py_in_iff_sublist by (rule sublist_order.order_trans)

text \<open>
  \<open>split\<close> never returns the empty list, its pieces are free of the separator, and
  joining them with the separator gives the text back: the pieces are exactly the
  stretches between the separators.
\<close>

lemma split_not_Nil: "split sep s \<noteq> []"
  by (induction s) (simp_all split: list.splits)

lemma join_Cons_head: "join sep ((c # p) # ps) = c # join sep (p # ps)"
  by (cases ps) simp_all

lemma join_split: "join [sep] (split sep s) = s"
proof (induction s)
  case Nil
  show ?case by simp
next
  case (Cons c cs)
  obtain p ps where ps: "split sep cs = p # ps"
    using split_not_Nil [of sep cs] by (cases "split sep cs") auto
  show ?case
  proof (cases "c = sep")
    case True
    then show ?thesis using Cons ps by simp
  next
    case False
    then show ?thesis using Cons ps by (simp add: join_Cons_head)
  qed
qed

lemma split_pieces_no_sep: "p \<in> set (split sep s) \<Longrightarrow> sep \<notin> set p"
proof (induction s arbitrary: p)
  case Nil
  then show ?case by simp
next
  case (Cons c cs)
  obtain q qs where qs: "split sep cs = q # qs"
    using split_not_Nil [of sep cs] by (cases "split sep cs") auto
  show ?case
  proof (cases "c = sep")
    case True
    then show ?thesis using Cons by auto
  next
    case False
    then have "p = c # q \<or> p \<in> set qs" using Cons.prems qs by simp
    then show ?thesis using Cons.IH [of q] Cons.IH [of p] qs False by auto
  qed
qed

text \<open>
  \<open>strip\<close> removes whitespace and nothing else, from the two ends only, and leaves no
  whitespace at either end.
\<close>

lemma strip_decompose:
  "\<exists>a b. s = a @ strip s @ b \<and> (\<forall>c \<in> set a. isspace c) \<and> (\<forall>c \<in> set b. isspace c)"
proof -
  let ?a = "takeWhile isspace s"
  let ?m = "dropWhile isspace s"
  let ?b = "rev (takeWhile isspace (rev ?m))"
  have "s = ?a @ ?m" by simp
  moreover have "rev ?m = takeWhile isspace (rev ?m) @ dropWhile isspace (rev ?m)" by simp
  then have "?m = strip s @ ?b"
    unfolding strip_def by (metis rev_append rev_rev_ident)
  moreover have "\<forall>c \<in> set ?a. isspace c" by (auto dest: set_takeWhileD)
  moreover have "\<forall>c \<in> set ?b. isspace c" by (auto dest: set_takeWhileD)
  ultimately show ?thesis by metis
qed

lemma strip_ends:
  "strip s \<noteq> [] \<Longrightarrow> \<not> isspace (hd (strip s)) \<and> \<not> isspace (last (strip s))"
proof -
  assume ne: "strip s \<noteq> []"
  let ?m = "dropWhile isspace s"
  let ?r = "dropWhile isspace (rev ?m)"
  have r: "?r \<noteq> []" using ne by (simp add: strip_def)
  then have m: "?m \<noteq> []" by (metis dropWhile.simps(1) rev.simps(1))
  have "\<not> isspace (hd ?r)" using r by (rule hd_dropWhile)
  then have l: "\<not> isspace (last (strip s))" using r by (simp add: strip_def last_rev)
  have "\<not> isspace (hd ?m)" using m by (rule hd_dropWhile)
  moreover have "hd (strip s) = hd ?m"
  proof -
    have "rev ?m = takeWhile isspace (rev ?m) @ ?r" by simp
    then have "?m = strip s @ rev (takeWhile isspace (rev ?m))"
      unfolding strip_def by (metis rev_append rev_rev_ident)
    then show ?thesis using ne by (metis hd_append2)
  qed
  ultimately show ?thesis using l by simp
qed

lemma py_take_is_take: "\<exists>m. py_take k xs = take m xs"
  by (auto simp: py_take_def)

lemma py_take_nonneg: "0 \<le> k \<Longrightarrow> py_take k xs = take (nat k) xs"
  by (simp add: py_take_def)

section \<open>Properties of the sentiment analyzer\<close>

lemma py_round4_tenth: "py_round4 (of_int k / 10) = of_int k / 10"
proof -
  have y: "(of_int k / 10 :: real) * 10000 = of_int (k * 1000)" by simp
  show ?thesis
    unfolding py_round4_def y Let_def floor_of_int by simp
qed

lemma min_tenths: "min (0.8::real) (0.3 + of_int d * 0.1) = of_int (min 8 (3 + d)) / 10"
  by (simp add: min_def field_simps)

lemma max_tenths: "max (- 0.8::real) (- 0.3 - of_int d * 0.1) = of_int (- min 8 (3 + d)) / 10"
  by (simp add: min_def max_def field_simps)

lemma conf_tenths: "min (1.0::real) (0.5 + of_int d * 0.1) = of_int (min 10 (5 + d)) / 10"
  by (simp add: min_def field_simps)

lemma label_score_counts:
  "label (score_counts p n) = (if p > n then ''positive'' else if n > p then ''negative'' else ''neutral'')"
  by (simp add: score_counts_def)

lemma polarity_score_counts:
  "polarity (score_counts p n) =
     (if p > n then of_int (min 8 (3 + (p - n))) / 10
      else if n > p then of_int (- min 8 (3 + (n - p))) / 10 else 0)"
proof -
  consider (pos) "p > n" | (neg) "n > p" | (eq) "p = n" by linarith
  then show ?thesis
  proof cases
    case pos
    then have "polarity (score_counts p n) = py_round4 (min 0.8 (0.3 + of_int (p - n) * 0.1))"
      by (simp add: score_counts_def)
    then show ?thesis using pos by (simp only: min_tenths py_round4_tenth if_True)
  next
    case neg
    then have "polarity (score_counts p n) = py_round4 (max (- 0.8) (- 0.3 - of_int (n - p) * 0.1))"
      by (simp add: score_counts_def)
    moreover have "\<not> p > n" using neg by simp
    ultimately show ?thesis using neg by (simp only: max_tenths py_round4_tenth if_True if_False)
  next
    case eq
    have "py_round4 0 = 0" using py_round4_tenth [of 0] by simp
    then show ?thesis using eq by (simp add: score_counts_def)
  qed
qed

lemma confidence_score_counts:
  "confidence (score_counts p n) = of_int (min 10 (5 + \<bar>p - n\<bar>)) / 10"
proof -
  have "confidence (score_counts p n) = py_round4 (min 1.0 (0.5 + of_int \<bar>p - n\<bar> * 0.1))"
    by (simp add: score_counts_def split: prod.splits)
  then show ?thesis by (simp only: conf_tenths py_round4_tenth)
qed

lemma analyze_sentiment_nonempty:
  "t \<noteq> [] \<Longrightarrow>
   analyze_sentiment (Some t) =
     score_counts (count_hits positive_words (lower t)) (count_hits negative_words (lower t))"
  by (simp add: analyze_sentiment_def Let_def)

lemma analyze_sentiment_cases:
  obtains (empty) "analyze_sentiment text = \<lparr>label = ''neutral'', confidence = 0, polarity = 0\<rparr>"
  | (scored) p n where "analyze_sentiment text = score_counts p n"
proof (cases "text")
  case None
  then have "analyze_sentiment text = \<lparr>label = ''neutral'', confidence = 0, polarity = 0\<rparr>"
    by (simp add: analyze_sentiment_def)
  then show ?thesis by (rule empty)
next
  case (Some t)
  show ?thesis
  proof (cases "t = []")
    case True
    with Some have "analyze_sentiment text = \<lparr>label = ''neutral'', confidence = 0, polarity = 0\<rparr>"
      by (simp add: analyze_sentiment_def)
    then show ?thesis by (rule empty)
  next
    case False
    with Some show ?thesis using scored analyze_sentiment_nonempty by blast
  qed
qed

lemma score_counts_sign:
  "(label (score_counts p n) = ''positive'' \<longleftrightarrow> polarity (score_counts p n) > 0) \<and>
   (label (score_counts p n) = ''negative'' \<longleftrightarrow> polarity (score_counts p n) < 0) \<and>
   (label (score_counts p n) = ''neutral'' \<longleftrightarrow> polarity (score_counts p n) = 0)"
  unfolding label_score_counts polarity_score_counts
  by (simp add: min_def)

text \<open>
  Claim C2. For every text, also the empty and the absent one, the label of the result
  is positive exactly when its polarity is above 0, negative exactly when it is below 0,
  and neutral exactly when it is 0.
\<close>

theorem analyze_label_matches_polarity_sign:
  "(label (analyze_sentiment text) = ''positive'' \<longleftrightarrow> polarity (analyze_sentiment text) > 0) \<and>
   (label (analyze_sentiment text) = ''negative'' \<longleftrightarrow> polarity (analyze_sentiment text) < 0) \<and>
   (label (analyze_sentiment text) = ''neutral'' \<longleftrightarrow> polarity (analyze_sentiment text) = 0)"
proof (cases "text" rule: analyze_sentiment_cases)
  case empty
  then show ?thesis by simp
next
  case (scored p n)
  then show ?thesis by (simp only: score_counts_sign simp_thms)
qed

lemma tenth_bounds:
  "a \<le> k \<Longrightarrow> k \<le> b \<Longrightarrow> (of_int a / 10 :: real) \<le> of_int k / 10 \<and> (of_int k / 10 :: real) \<le> of_int b / 10"
  by simp

lemma polarity_tenths: "\<exists>k. polarity (score_counts p n) = of_int k / 10 \<and> - 8 \<le> k \<and> k \<le> 8"
proof -
  consider (pos) "p > n" | (neg) "n > p" | (eq) "p = n" by linarith
  then show ?thesis
  proof cases
    case pos
    then have "polarity (score_counts p n) = of_int (min 8 (3 + (p - n))) / 10"
      by (simp only: polarity_score_counts if_True)
    moreover have "- 8 \<le> min 8 (3 + (p - n)) \<and> min 8 (3 + (p - n)) \<le> 8" using pos by simp
    ultimately show ?thesis by blast
  next
    case neg
    then have "polarity (score_counts p n) = of_int (- min 8 (3 + (n - p))) / 10"
      by (simp add: polarity_score_counts del: of_int_minus of_int_min)
    moreover have "- 8 \<le> - min 8 (3 + (n - p)) \<and> - min 8 (3 + (n - p)) \<le> 8" using neg by simp
    ultimately show ?thesis by blast
  next
    case eq
    then have "polarity (score_counts p n) = of_int 0 / 10"
      by (simp add: polarity_score_counts)
    then show ?thesis by (intro exI [of _ 0]) simp
  qed
qed

lemma score_counts_ranges:
  "0 \<le> confidence (score_counts p n) \<and> confidence (score_counts p n) \<le> 1 \<and>
   - 0.8 \<le> polarity (score_counts p n) \<and> polarity (score_counts p n) \<le> 0.8"
proof -
  have "5 \<le> min 10 (5 + \<bar>p - n\<bar>)" and "min 10 (5 + \<bar>p - n\<bar>) \<le> 10" by simp_all
  from tenth_bounds [OF this]
  have c: "0 \<le> confidence (score_counts p n) \<and> confidence (score_counts p n) \<le> 1"
    unfolding confidence_score_counts by simp
  obtain k where k: "polarity (score_counts p n) = of_int k / 10" "- 8 \<le> k" "k \<le> 8"
    using polarity_tenths by blast
  from tenth_bounds [OF k(2,3)]
  have "- 0.8 \<le> polarity (score_counts p n) \<and> polarity (score_counts p n) \<le> 0.8"
    unfolding k(1) by simp
  with c show ?thesis by blast
qed

text \<open>
  Claim C3. For every text the confidence lies between 0.0 and 1.0 and the polarity
  between -0.8 and 0.8, however many lexicon entries the text matches.
\<close>

theorem analyze_ranges:
  "0 \<le> confidence (analyze_sentiment text) \<and> confidence (analyze_sentiment text) \<le> 1 \<and>
   - 0.8 \<le> polarity (analyze_sentiment text) \<and> polarity (analyze_sentiment text) \<le> 0.8"
proof (cases "text" rule: analyze_sentiment_cases)
  case empty
  then show ?thesis by simp
next
  case (scored p n)
  then show ?thesis using score_counts_ranges [of p n] by (simp only:)
qed

text \<open>
  Claim C4. The empty string and the absent text give exactly the neutral label with
  confidence 0.0 and polarity 0.0: the early return, not the 0.5 that the confidence
  formula gives for equal counts.
\<close>

theorem analyze_empty:
  "analyze_sentiment (Some '''') = \<lparr>label = ''neutral'', confidence = 0.0, polarity = 0.0\<rparr> \<and>
   analyze_sentiment None = \<lparr>label = ''neutral'', confidence = 0.0, polarity = 0.0\<rparr> \<and>
   confidence (analyze_sentiment (Some '''')) \<noteq> 0.5 \<and> confidence (analyze_sentiment None) \<noteq> 0.5"
  by (simp add: analyze_sentiment_def)

text \<open>
  Claim C5. In the lowered text "This is great and wonderful" exactly the two positive
  entries great and wonderful occur and no negative entry, and the result is the
  positive label with confidence 0.7 and polarity 0.5.
\<close>

theorem analyze_great_wonderful:
  "filter (\<lambda>w. py_in w (lower ''This is great and wonderful'')) positive_words = [''great'', ''wonderful''] \<and>
   filter (\<lambda>w. py_in w (lower ''This is great and wonderful'')) negative_words = [] \<and>
   analyze_sentiment (Some ''This is great and wonderful'') =
     \<lparr>label = ''positive'', confidence = 0.7, polarity = 0.5\<rparr>"
  by code_simp

subsection \<open>Negative entries that contain a positive entry\<close>

lemma score_counts_tie:
  "score_counts 1 1 = \<lparr>label = ''neutral'', confidence = 0.5, polarity = 0.0\<rparr>"
proof -
  have "py_round4 0 = 0" using py_round4_tenth [of 0] by simp
  moreover have "py_round4 (1 / 2) = 1 / 2" using py_round4_tenth [of 5] by simp
  ultimately show ?thesis by (simp add: score_counts_def)
qed

text \<open>Each of the four negative entries contains exactly one positive entry.\<close>

lemma positive_inside_negative:
  assumes "n \<in> {''dislike'', ''disagree'', ''disapprove'', ''unsatisfactory''}"
  shows "length (filter (\<lambda>w. py_in w n) positive_words) = 1"
proof -
  have "length (filter (\<lambda>w. py_in w ''dislike'') positive_words) = 1" by code_simp
  moreover have "length (filter (\<lambda>w. py_in w ''disagree'') positive_words) = 1" by code_simp
  moreover have "length (filter (\<lambda>w. py_in w ''disapprove'') positive_words) = 1" by code_simp
  moreover have "length (filter (\<lambda>w. py_in w ''unsatisfactory'') positive_words) = 1" by code_simp
  ultimately show ?thesis using assms by auto
qed

text \<open>
  Claim C9. Let the text be non-empty, let its only negative hit be one of dislike,
  disagree, disapprove, unsatisfactory, and let every positive hit be one that this
  entry itself contains. Then the positive count and the negative count are both 1 and
  the result is the neutral label with polarity 0.0 and confidence 0.5. The text
  "dislike" is such a text, so it is neutral and not negative.
\<close>

theorem overlap_entry_neutral:
  assumes "t \<noteq> []"
    and "n \<in> {''dislike'', ''disagree'', ''disapprove'', ''unsatisfactory''}"
    and "filter (\<lambda>w. py_in w (lower t)) negative_words = [n]"
    and "\<forall>w \<in> set positive_words. py_in w (lower t) \<longrightarrow> py_in w n"
  shows "count_hits positive_words (lower t) = 1 \<and> count_hits negative_words (lower t) = 1 \<and>
         analyze_sentiment (Some t) = \<lparr>label = ''neutral'', confidence = 0.5, polarity = 0.0\<rparr>"
proof -
  have neg: "count_hits negative_words (lower t) = 1"
    using assms(3) by (simp add: count_hits_def)
  have "n \<in> set (filter (\<lambda>w. py_in w (lower t)) negative_words)"
    using assms(3) by simp
  then have hit: "py_in n (lower t)" by simp
  have "filter (\<lambda>w. py_in w (lower t)) positive_words = filter (\<lambda>w. py_in w n) positive_words"
  proof (rule filter_cong [OF refl])
    fix w assume "w \<in> set positive_words"
    then show "py_in w (lower t) = py_in w n"
      using assms(4) hit py_in_trans by blast
  qed
  then have pos: "count_hits positive_words (lower t) = 1"
    using positive_inside_negative [OF assms(2)] by (simp add: count_hits_def)
  show ?thesis
    using pos neg analyze_sentiment_nonempty [OF assms(1)] score_counts_tie by simp
qed

theorem overlap_entry_neutral_witness:
  "''dislike'' \<noteq> [] \<and>
   ''dislike'' \<in> {''dislike'', ''disagree'', ''disapprove'', ''unsatisfactory''} \<and>
   filter (\<lambda>w. py_in w (lower ''dislike'')) negative_words = [''dislike''] \<and>
   filter (\<lambda>w. py_in w (lower ''dislike'')) positive_words = [''like''] \<and>
   py_in ''like'' ''dislike'' \<and>
   count_hits positive_words (lower ''dislike'') = 1 \<and>
   count_hits negative_words (lower ''dislike'') = 1 \<and>
   analyze_sentiment (Some ''dislike'') = \<lparr>label = ''neutral'', confidence = 0.5, polarity = 0.0\<rparr>"
proof -
  have h1: "''dislike'' \<noteq> []" by simp
  have h2: "''dislike'' \<in> {''dislike'', ''disagree'', ''disapprove'', ''unsatisfactory''}" by simp
  have h3: "filter (\<lambda>w. py_in w (lower ''dislike'')) negative_words = [''dislike'']" by code_simp
  have h4: "\<forall>w \<in> set positive_words. py_in w (lower ''dislike'') \<longrightarrow> py_in w ''dislike''"
    by code_simp
  have h5: "filter (\<lambda>w. py_in w (lower ''dislike'')) positive_words = [''like'']" by code_simp
  have h6: "py_in ''like'' ''dislike''" by code_simp
  from overlap_entry_neutral [OF h1 h2 h3 h4] h1 h2 h3 h5 h6 show ?thesis by blast
qed

section \<open>Properties of the summarizer\<close>

subsection \<open>The three ways out of \<open>generate_summary\<close>\<close>

lemma sentences_of_alt:
  "sentences_of t = filter (\<lambda>p. 20 < length p) (map strip (split CHR ''.'' t))"
  by (simp add: sentences_of_def filter_map comp_def)

lemma sentences_of_trimmed:
  assumes "p \<in> set (sentences_of t)"
  shows "20 < length p \<and> \<not> isspace (hd p) \<and> \<not> isspace (last p)"
proof -
  from assms obtain q where q: "p = strip q" and len: "20 < length p"
    by (auto simp: sentences_of_def)
  from len have "strip q \<noteq> []" unfolding q by auto
  then show ?thesis using strip_ends [of q] len q by simp
qed

lemma generate_summary_short:
  "t \<noteq> [] \<Longrightarrow> int (length (sentences_of t)) \<le> k \<Longrightarrow> generate_summary (Some t) k = t"
  by (simp add: generate_summary_def Let_def)

lemma generate_summary_long:
  "t \<noteq> [] \<Longrightarrow> k < int (length (sentences_of t)) \<Longrightarrow>
   generate_summary (Some t) k =
     join ''. '' (map sentence_of (top_sentences k (sort_reverse (sentence_scores (sentences_of t)))))
       @ ''.''"
  by (simp add: generate_summary_def Let_def)

text \<open>
  Claim C8. For the empty string and for the absent text the summary is the fixed
  sentence "No text provided for summarization.", whatever \<open>max_sentences\<close> is, and so
  never the empty string.
\<close>

theorem summary_no_text:
  "generate_summary (Some '''') k = ''No text provided for summarization.'' \<and>
   generate_summary None k = ''No text provided for summarization.'' \<and>
   generate_summary (Some '''') k \<noteq> '''' \<and> generate_summary None k \<noteq> ''''"
  by (simp add: generate_summary_def no_text_def)

text \<open>
  Claim C6. For a non-empty text (the empty and the absent text leave earlier, see C8):
  the pieces are those between the periods, so joining them with a period gives the text
  back and no piece holds a period; the surviving sentences are the trimmed pieces
  longer than 20 characters, each without whitespace at its ends; and when there are at
  most \<open>max_sentences\<close> of them, the summary is the input text itself.
\<close>

theorem summary_short_circuit:
  "t \<noteq> [] \<Longrightarrow>
   join ''.'' (split CHR ''.'' t) = t \<and>
   (\<forall>p \<in> set (split CHR ''.'' t). CHR ''.'' \<notin> set p) \<and>
   sentences_of t = filter (\<lambda>p. 20 < length p) (map strip (split CHR ''.'' t)) \<and>
   (\<forall>p \<in> set (sentences_of t). 20 < length p \<and> \<not> isspace (hd p) \<and> \<not> isspace (last p)) \<and>
   (int (length (sentences_of t)) \<le> k \<longrightarrow> generate_summary (Some t) k = t)"
  using join_split [of "CHR ''.''" t] split_pieces_no_sep [of _ "CHR ''.''" t]
    sentences_of_alt [of t] sentences_of_trimmed [of _ t] generate_summary_short [of t k]
  by blast

theorem summary_short_circuit_witness:
  "''Short note. This sentence is long enough to survive.'' \<noteq> [] \<and>
   int (length (sentences_of ''Short note. This sentence is long enough to survive.'')) \<le> 3 \<and>
   sentences_of ''Short note. This sentence is long enough to survive.'' =
     [''This sentence is long enough to survive''] \<and>
   generate_summary (Some ''Short note. This sentence is long enough to survive.'') 3 =
     ''Short note. This sentence is long enough to survive.''"
proof -
  let ?t = "''Short note. This sentence is long enough to survive.''"
  have h1: "?t \<noteq> []" by simp
  have h2: "int (length (sentences_of ?t)) \<le> 3" by code_simp
  have h3: "sentences_of ?t = [''This sentence is long enough to survive'']" by code_simp
  from summary_short_circuit [OF h1, of 3] h1 h2 h3 show ?thesis by blast
qed

text \<open>
  Claim C10. With \<open>max_sentences = 0\<close> and a non-empty text that has at least one
  surviving sentence, the count exceeds 0, nothing is selected, and the summary is the
  one-character string ".".
\<close>

theorem summary_zero_sentences:
  "t \<noteq> [] \<Longrightarrow> sentences_of t \<noteq> [] \<Longrightarrow> generate_summary (Some t) 0 = ''.''"
  by (simp add: generate_summary_long top_sentences_def py_take_def)

theorem summary_zero_sentences_witness:
  "''The committee reviewed proposal alpha. The council examined document beta.'' \<noteq> [] \<and>
   sentences_of ''The committee reviewed proposal alpha. The council examined document beta.'' \<noteq> [] \<and>
   generate_summary
     (Some ''The committee reviewed proposal alpha. The council examined document beta.'') 0 = ''.''"
proof -
  let ?t = "''The committee reviewed proposal alpha. The council examined document beta.''"
  have h1: "?t \<noteq> []" by simp
  have h2: "sentences_of ?t \<noteq> []" by code_simp
  from summary_zero_sentences [OF h1 h2] h1 h2 show ?thesis by blast
qed

subsection \<open>The scored triples\<close>

lemma index_of_sentence_scores: "map index_of (sentence_scores s) = [0..<length s]"
proof -
  have "map index_of (sentence_scores s) = map fst (enumerate 0 s)"
    by (simp add: sentence_scores_def Let_def index_of_def case_prod_beta comp_def)
  then show ?thesis by simp
qed

lemma sentence_of_sentence_scores: "map sentence_of (sentence_scores s) = s"
proof -
  have "map sentence_of (sentence_scores s) = map snd (enumerate 0 s)"
    by (simp add: sentence_scores_def Let_def sentence_of_def case_prod_beta comp_def)
  then show ?thesis by simp
qed

lemma length_sentence_scores: "length (sentence_scores s) = length s"
  using arg_cong [OF index_of_sentence_scores, of length s] by simp

lemma sentence_scores_nth:
  assumes "x \<in> set (sentence_scores s)"
  shows "index_of x < length s \<and> sentence_of x = s ! index_of x"
proof -
  from assms obtain j where j: "j < length (sentence_scores s)" "x = sentence_scores s ! j"
    by (auto simp: in_set_conv_nth)
  note len = length_sentence_scores [of s]
  have "index_of x = map index_of (sentence_scores s) ! j" using j by simp
  then have i: "index_of x = j" using j len by (simp only: index_of_sentence_scores) simp
  have "sentence_of x = map sentence_of (sentence_scores s) ! j" using j by simp
  then have "sentence_of x = s ! j" by (simp only: sentence_of_sentence_scores)
  with i j len show ?thesis by simp
qed

lemma distinct_index_sentence_scores: "distinct (map index_of (sentence_scores s))"
  by (simp only: index_of_sentence_scores distinct_upt)

subsection \<open>The ranking\<close>

lemma set_sort_reverse: "set (sort_reverse xs) = set xs"
  by (simp add: sort_reverse_def)

lemma length_sort_reverse: "length (sort_reverse xs) = length xs"
  by (simp add: sort_reverse_def)

lemma distinct_sort_reverse: "distinct (sort_reverse xs) = distinct xs"
  by (simp add: sort_reverse_def)

text \<open>
  Two triples at different positions: the greater one as a triple is the one with the
  higher score, or with the same score and the higher position. The sentence itself
  never decides.
\<close>

lemma scored_less_ranks:
  fixes a b :: scored
  assumes "b < a" and "index_of a \<noteq> index_of b"
  shows "ranks_before a b"
proof -
  obtain sa ia ta where a: "a = (sa, ia, ta)" by (cases a)
  obtain sb ib tb where b: "b = (sb, ib, tb)" by (cases b)
  from assms show ?thesis
    unfolding a b ranks_before_def score_of_def index_of_def by auto
qed

lemma sort_reverse_ranks:
  assumes "distinct (map index_of xs)"
  shows "sorted_wrt ranks_before (sort_reverse xs)"
proof -
  from assms have d: "distinct xs" and inj: "inj_on index_of (set xs)"
    by (simp_all add: distinct_map)
  have "sorted_wrt (<) (sort xs)" using d by (simp add: strict_sorted_iff)
  then have "sorted_wrt (\<lambda>a b. b < a) (sort_reverse xs)"
    by (simp add: sort_reverse_def sorted_wrt_rev)
  moreover have "ranks_before a b"
    if "a \<in> set (sort_reverse xs)" "b \<in> set (sort_reverse xs)" "b < a" for a b
  proof -
    from that have "a \<in> set xs" "b \<in> set xs" "a \<noteq> b" by (auto simp: set_sort_reverse)
    with inj have "index_of a \<noteq> index_of b" by (auto dest: inj_onD)
    with that(3) show ?thesis by (rule scored_less_ranks)
  qed
  ultimately show ?thesis by (rule sorted_wrt_mono_rel [rotated])
qed

lemma ranked_distinct_index:
  "distinct (map index_of (sort_reverse (sentence_scores s)))"
proof -
  have d: "distinct (sentence_scores s)" and inj: "inj_on index_of (set (sentence_scores s))"
    using distinct_index_sentence_scores [of s] by (simp_all add: distinct_map)
  show ?thesis using d inj by (simp add: distinct_map set_sort_reverse distinct_sort_reverse)
qed

text \<open>
  Claim C1, as the code has it. When a non-empty text has more than \<open>max_sentences\<close>
  surviving sentences, the summary is built from the first \<open>max_sentences\<close> triples of a
  ranking that holds every scored sentence once and orders them by score descending
  and, among equal scores, by original index descending: a tie goes to the later
  sentence.
\<close>

theorem summary_ranking_order:
  assumes "t \<noteq> []" and "k < int (length (sentences_of t))"
  shows "generate_summary (Some t) k =
           join ''. '' (map sentence_of
             (top_sentences k (sort_reverse (sentence_scores (sentences_of t))))) @ ''.'' \<and>
         sorted_wrt ranks_before (sort_reverse (sentence_scores (sentences_of t))) \<and>
         set (sort_reverse (sentence_scores (sentences_of t))) = set (sentence_scores (sentences_of t)) \<and>
         length (sort_reverse (sentence_scores (sentences_of t))) = length (sentences_of t) \<and>
         (0 \<le> k \<longrightarrow> set (top_sentences k (sort_reverse (sentence_scores (sentences_of t)))) =
            set (take (nat k) (sort_reverse (sentence_scores (sentences_of t)))))"
  using generate_summary_long [OF assms]
    sort_reverse_ranks [OF distinct_index_sentence_scores, of "sentences_of t"]
  by (simp add: set_sort_reverse length_sort_reverse length_sentence_scores
      top_sentences_def py_take_nonneg)

theorem summary_ranking_order_witness:
  "''Schools need money and books. Roads need money and repair. Parks are nice in the spring.'' \<noteq> [] \<and>
   2 < int (length (sentences_of ''Schools need money and books. Roads need money and repair. Parks are nice in the spring.'')) \<and>
   sorted_wrt ranks_before (sort_reverse (sentence_scores (sentences_of
     ''Schools need money and books. Roads need money and repair. Parks are nice in the spring.''))) \<and>
   sort_reverse (sentence_scores (sentences_of
     ''Schools need money and books. Roads need money and repair. Parks are nice in the spring.'')) =
     [(6, 1, ''Roads need money and repair''), (6, 0, ''Schools need money and books''),
      (3, 2, ''Parks are nice in the spring'')]"
proof -
  let ?t = "''Schools need money and books. Roads need money and repair. Parks are nice in the spring.''"
  have h1: "?t \<noteq> []" by simp
  have h2: "2 < int (length (sentences_of ?t))" by code_simp
  have h3: "sort_reverse (sentence_scores (sentences_of ?t)) =
     [(6, 1, ''Roads need money and repair''), (6, 0, ''Schools need money and books''),
      (3, 2, ''Parks are nice in the spring'')]" by code_simp
  from summary_ranking_order [OF h1 h2] h1 h2 h3 show ?thesis by blast
qed

text \<open>
  The claim as the specification words it, ties to the earlier sentence, fails: two
  sentences with the score 4 each are ranked with the second one first, and with
  \<open>max_sentences = 1\<close> the summary is the second sentence.
\<close>

theorem summary_ranking_tie_counterexample:
  "sort_reverse (sentence_scores (sentences_of
      ''The committee reviewed proposal alpha. The council examined document beta.'')) =
     [(4, 1, ''The council examined document beta''),
      (4, 0, ''The committee reviewed proposal alpha'')] \<and>
   \<not> sorted_wrt spec_ranks_before (sort_reverse (sentence_scores (sentences_of
      ''The committee reviewed proposal alpha. The council examined document beta.''))) \<and>
   generate_summary
     (Some ''The committee reviewed proposal alpha. The council examined document beta.'') 1 =
     ''The council examined document beta.''"
  by code_simp

subsection \<open>The selection, back in document order\<close>

lemma top_sentences_indices:
  assumes "distinct (map index_of ranked)"
  shows "sorted_wrt (<) (map index_of (top_sentences k ranked))"
proof -
  obtain m where m: "py_take k ranked = take m ranked" using py_take_is_take by blast
  have "distinct (take m (map index_of ranked))" using assms by (rule distinct_take)
  then have "distinct (map index_of (take m ranked))" by (simp only: take_map)
  then have d: "distinct (take m ranked)" and inj: "inj_on index_of (set (take m ranked))"
    by (simp_all add: distinct_map)
  have "distinct (map index_of (sort_key index_of (take m ranked)))"
    using d inj by (simp add: distinct_map)
  moreover have "sorted (map index_of (sort_key index_of (take m ranked)))"
    by (rule sorted_sort_key)
  ultimately show ?thesis by (simp add: top_sentences_def m strict_sorted_iff)
qed

lemma set_top_sentences: "set (top_sentences k ranked) \<subseteq> set ranked"
proof -
  obtain m where m: "py_take k ranked = take m ranked" using py_take_is_take by blast
  show ?thesis by (simp add: top_sentences_def m set_take_subset)
qed

text \<open>
  Claim C7. When a non-empty text has more than \<open>max_sentences\<close> surviving sentences,
  the summary joins the selected triples, whose original indices are strictly
  increasing, and each selected sentence is the surviving sentence at its index: the
  sentences of the summary stand in the order of the source.
\<close>

theorem summary_document_order:
  assumes "t \<noteq> []" and "k < int (length (sentences_of t))"
  shows "let top = top_sentences k (sort_reverse (sentence_scores (sentences_of t)))
         in generate_summary (Some t) k = join ''. '' (map sentence_of top) @ ''.'' \<and>
            sorted_wrt (<) (map index_of top) \<and>
            (\<forall>x \<in> set top. index_of x < length (sentences_of t) \<and>
                           sentence_of x = sentences_of t ! index_of x)"
proof -
  let ?ranked = "sort_reverse (sentence_scores (sentences_of t))"
  have "\<forall>x \<in> set (top_sentences k ?ranked).
          index_of x < length (sentences_of t) \<and> sentence_of x = sentences_of t ! index_of x"
    using set_top_sentences [of k ?ranked] sentence_scores_nth [of _ "sentences_of t"]
    by (auto simp: set_sort_reverse)
  then show ?thesis
    using generate_summary_long [OF assms] top_sentences_indices [OF ranked_distinct_index]
    by (simp add: Let_def)
qed

theorem summary_document_order_witness:
  "''Schools need money and books. Roads need money and repair. Parks are nice in the spring.'' \<noteq> [] \<and>
   2 < int (length (sentences_of ''Schools need money and books. Roads need money and repair. Parks are nice in the spring.'')) \<and>
   sorted_wrt (<) (map index_of (top_sentences 2 (sort_reverse (sentence_scores (sentences_of
     ''Schools need money and books. Roads need money and repair. Parks are nice in the spring.''))))) \<and>
   generate_summary (Some ''Schools need money and books. Roads need money and repair. Parks are nice in the spring.'') 2 =
     ''Schools need money and books. Roads need money and repair.''"
proof -
  let ?t = "''Schools need money and books. Roads need money and repair. Parks are nice in the spring.''"
  have h1: "?t \<noteq> []" by simp
  have h2: "2 < int (length (sentences_of ?t))" by code_simp
  have h3: "generate_summary (Some ?t) 2 =
     ''Schools need money and books. Roads need money and repair.''" by code_simp
  from summary_document_order [OF h1 h2] h1 h2 h3 show ?thesis by (simp only: Let_def) blast
qed

end
